theory Spec2Isabelle
  imports Complex_Main
begin

section \<open>Throughput-limiting delay queues (telegram/ext/messagequeue.py)\<close>

text \<open>
  The exceptions that the modelled code raises. \<open>DelayQueueError\<close> is the module's own
  exception class; the others are Python built-ins raised by the statements the model
  follows (\<open>ValueError\<close> by \<open>put\<close>, the constructors and \<open>time.sleep\<close> on a
  negative duration, \<open>IndexError\<close> by \<open>times[1]\<close>, \<open>RuntimeError\<close> by
  \<open>Thread.start\<close> and \<open>Thread.join\<close>, \<open>AttributeError\<close> by \<open>None.run()\<close>,
  \<open>KeyError\<close> by a dictionary lookup). \<open>TaskError\<close> stands for an exception raised by
  a task's callable. \<open>NoSuchObject\<close> is not a Python exception: it is the answer of a
  method of the model called at an address that holds no object.
\<close>

datatype error =
    ValueError
  | DelayQueueError
  | IndexError
  | RuntimeError
  | AttributeError
  | KeyError
  | TaskError string
  | NoSuchObject

subsection \<open>The delay routine of \<open>DelayQueue.run\<close> (lines 142-154)\<close>

text \<open>
  Clock readings and durations are Python floats (IEEE 754 binary64). A float is modelled
  by the real number it denotes, and an arithmetic operation on floats by the exact
  operation followed by \<open>fl\<close>, rounding to the nearest binary64 value, ties to the
  even significand: \<open>binade\<close> is the exponent of the binade of the argument (at least
  \<open>-1022\<close>, below which the values are subnormal), and a value is rounded to a multiple
  of \<open>2 powi (binade - 52)\<close>. Overflow is not modelled: the quantities of the delay
  routine are far below \<open>2 ^ 1024\<close>.
\<close>

definition half_even :: "real \<Rightarrow> int" where
  "half_even q =
     (let f = \<lfloor>q\<rfloor>; r = q - of_int f
      in if r < 1/2 then f else if 1/2 < r then f + 1 else if even f then f else f + 1)"

definition binade :: "real \<Rightarrow> int" where
  "binade a = max (- 1022) \<lfloor>log 2 a\<rfloor>"

definition fl :: "real \<Rightarrow> real" where
  "fl x =
     (if x = 0 then 0
      else let u = 2 powi (binade \<bar>x\<bar> - 52)
           in sgn x * of_int (half_even (\<bar>x\<bar> / u)) * u)"

text \<open>\<open>self.time_limit = time_limit_ms / 1000\<close> (line 100): the quotient of two
  integers, rounded to a float.\<close>

definition time_limit_of :: "int \<Rightarrow> real" where
  "time_limit_of time_limit_ms = fl (real_of_int time_limit_ms / 1000)"

text \<open>The list comprehension \<open>[t for t in times if t >= t_delta]\<close> (line 151).\<close>

fun recent :: "real list \<Rightarrow> real \<Rightarrow> real list" where
  "recent [] t_delta = []"
| "recent (t # tms) t_delta =
     (if t \<ge> t_delta then t # recent tms t_delta else recent tms t_delta)"

text \<open>
  Lines 143-152: the new value of \<open>times\<close>. \<open>t_delta\<close> is the float difference
  of line 143. \<open>times[-1]\<close> is read only when \<open>times\<close> is non-empty, where it is the
  element at index \<open>len(times) - 1\<close>.
\<close>

definition window_update :: "real \<Rightarrow> real \<Rightarrow> real list \<Rightarrow> real list" where
  "window_update time_limit now tms =
     (let t_delta = fl (now - time_limit) in
      if tms \<noteq> [] \<and> t_delta > tms ! (length tms - 1)
      then [now]
      else recent tms t_delta @ [now])"

text \<open>\<open>time.sleep(secs)\<close> raises \<open>ValueError\<close> on a negative duration; otherwise the
  worker is suspended for \<open>secs\<close>. The result is the time slept.\<close>

definition sleep :: "real \<Rightarrow> error + real" where
  "sleep secs = (if secs < 0 then Inl ValueError else Inr secs)"

text \<open>
  Lines 153-154, on the updated \<open>times\<close>: when the limit is hit the worker sleeps for
  the float difference \<open>times[1] - t_delta\<close>; reading \<open>times[1]\<close> of a list with fewer
  than two entries raises \<open>IndexError\<close>. Without a sleep the time slept is \<open>0\<close>.
\<close>

definition throttle :: "int \<Rightarrow> real \<Rightarrow> real \<Rightarrow> real list \<Rightarrow> error + real" where
  "throttle burst_limit time_limit now tms =
     (let t_delta = fl (now - time_limit) in
      if int (length tms) \<ge> burst_limit
      then (if 1 < length tms then sleep (fl (tms ! 1 - t_delta)) else Inl IndexError)
      else Inr 0)"

text \<open>The whole delay routine: the updated \<open>times\<close> and the time slept, or the
  exception that ends the worker thread.\<close>

definition delay_routine ::
  "int \<Rightarrow> real \<Rightarrow> real list \<Rightarrow> real \<Rightarrow> error + (real list \<times> real)" where
  "delay_routine burst_limit time_limit tms now =
     (let tms' = window_update time_limit now tms in
      case throttle burst_limit time_limit now tms' of
        Inl e \<Rightarrow> Inl e
      | Inr secs \<Rightarrow> Inr (tms', secs))"

text \<open>
  The successive values of the worker's \<open>times\<close> list, one per iteration (taken after
  line 152), when the clock reads \<open>nows\<close> at line 142 of the successive iterations,
  starting from \<open>times\<close>. An exception in the delay routine ends the thread, so no
  further value follows.
\<close>

fun worker_times :: "int \<Rightarrow> real \<Rightarrow> real list \<Rightarrow> real list \<Rightarrow> real list list" where
  "worker_times burst_limit time_limit tms [] = []"
| "worker_times burst_limit time_limit tms (now # nows) =
     (let tms' = window_update time_limit now tms in
      tms' # (case throttle burst_limit time_limit now tms' of
                  Inl e \<Rightarrow> []
                | Inr secs \<Rightarrow> worker_times burst_limit time_limit tms' nows))"

text \<open>
  A clock on which sleep wakes exactly on time: a reading is never earlier than the
  moment the sleep of the iteration before ended (\<open>wake\<close>); the worker may have waited
  longer, blocked on the empty queue.
\<close>

fun exact_clock :: "int \<Rightarrow> real \<Rightarrow> real list \<Rightarrow> real \<Rightarrow> real list \<Rightarrow> bool" where
  "exact_clock burst_limit time_limit tms wake [] = True"
| "exact_clock burst_limit time_limit tms wake (now # nows) =
     (wake \<le> now \<and>
      (let tms' = window_update time_limit now tms in
       case throttle burst_limit time_limit now tms' of
         Inl e \<Rightarrow> True
       | Inr secs \<Rightarrow> exact_clock burst_limit time_limit tms' (now + secs) nows))"

definition ideal_clock :: "int \<Rightarrow> real \<Rightarrow> real list \<Rightarrow> bool" where
  "ideal_clock burst_limit time_limit nows =
     (case nows of [] \<Rightarrow> True
      | now # _ \<Rightarrow> exact_clock burst_limit time_limit [] now nows)"

text \<open>
  A run on which the float subtractions of the delay routine lose nothing: in every
  iteration the difference of line 143 is exact, and so is the difference of line 154
  when it is computed.
\<close>

fun exact_run :: "int \<Rightarrow> real \<Rightarrow> real list \<Rightarrow> real list \<Rightarrow> bool" where
  "exact_run burst_limit time_limit tms [] = True"
| "exact_run burst_limit time_limit tms (now # nows) =
     (fl (now - time_limit) = now - time_limit \<and>
      (let tms' = window_update time_limit now tms in
       (if burst_limit \<le> int (length tms') \<and> 1 < length tms'
        then fl (tms' ! 1 - fl (now - time_limit)) = tms' ! 1 - fl (now - time_limit)
        else True) \<and>
       (case throttle burst_limit time_limit now tms' of
          Inl e \<Rightarrow> True
        | Inr secs \<Rightarrow> exact_run burst_limit time_limit tms' nows)))"

text \<open>The recorded timestamps that fall in the half-open interval \<open>[a, a + w)\<close>.\<close>

definition in_window :: "real \<Rightarrow> real \<Rightarrow> real list \<Rightarrow> real list" where
  "in_window a w tms = filter (\<lambda>t. a \<le> t \<and> t < a + w) tms"


subsection \<open>Promises\<close>

text \<open>
  Modelled from the spec: the task handle, class \<open>Promise\<close> of
  \<open>telegram.utils.promise\<close> (imported at line 34, not part of this module). The spec says
  it "wraps a callable plus arguments; exposes \<open>run()\<close> and exposes whether execution raised
  an error plus the captured error". A callable is given by a name and by what invoking it
  does: return normally (\<open>None\<close>) or raise an exception. Argument values are opaque.
  Promise objects, like the DelayQueue, dispatcher and exception objects tested in
  conditions, are truthy.
\<close>

record callable =
  c_name :: string
  c_raises :: "error option"

record promise =
  pooled_function :: callable
  p_args :: string
  p_kwargs :: string
  p_done :: bool
  p_exception :: "error option"

definition Promise :: "callable \<Rightarrow> string \<Rightarrow> string \<Rightarrow> promise" where
  "Promise func args kwargs =
     \<lparr>pooled_function = func, p_args = args, p_kwargs = kwargs,
      p_done = False, p_exception = None\<rparr>"

definition promise_run :: "promise \<Rightarrow> promise" where
  "promise_run p = p\<lparr>p_done := True, p_exception := c_raises (pooled_function p)\<rparr>"

subsection \<open>DelayQueue objects\<close>

text \<open>
  An error handler is the module's \<open>_default_exception_handler\<close> (lines 186-188), which
  re-raises its argument, or a callable supplied by the user, given by its name; a call of
  the latter is recorded in the log \<open>routed\<close> and returns.
\<close>

datatype handler = Default_exception_handler | Handler string

text \<open>
  The life of the worker thread (class \<open>threading.Thread\<close>): not started yet, running
  \<open>run\<close>, or terminated, by \<open>run\<close> returning or by the exception that escaped it.
\<close>

datatype thread_state = Not_started | Running | Terminated "error option"

type_synonym addr = nat

text \<open>
  The fields of a DelayQueue. \<open>queue\<close> is the content of \<open>self._queue\<close>, oldest entry
  first; an entry is a promise or \<open>None\<close>, the value \<open>stop\<close> puts. \<open>parent\<close> is a
  reference to another DelayQueue. \<open>run_times\<close> is the local variable \<open>times\<close> of
  \<open>run\<close>.
\<close>

record delay_queue =
  queue :: "promise option list"
  burst_limit :: int
  time_limit :: real
  parent :: "addr option"
  dispatcher :: "string option"
  exc_route :: handler
  exit_req :: bool
  name :: string
  thread :: thread_state
  run_times :: "real list"

text \<open>
  The program state: the DelayQueue objects by address, the class attribute
  \<open>INSTANCE_COUNT\<close> (the address of a new object is the number of objects created before
  it), and three logs of what the workers did: the promises whose \<open>run()\<close> was called (as
  they are after the call), the calls of \<open>dispatcher.post_process_promise\<close> and the calls of
  user-supplied error handlers.
\<close>

record world =
  heap :: "addr \<Rightarrow> delay_queue option"
  instance_count :: nat
  ran :: "promise list"
  post_processed :: "(string \<times> promise) list"
  routed :: "(string \<times> error) list"

definition empty_world :: world where
  "empty_world = \<lparr>heap = (\<lambda>a. None), instance_count = 0, ran = [], post_processed = [],
     routed = []\<rparr>"

text \<open>\<open>is_alive()\<close> of \<open>threading.Thread\<close>.\<close>

definition is_alive :: "delay_queue \<Rightarrow> bool" where
  "is_alive dq = (thread dq = Running)"

text \<open>The decimal numeral of the instance counter, for the default thread name
  \<open>f'{self.__class__.__name__}-{self.__class__.INSTANCE_COUNT}'\<close> (line 118).\<close>

definition digit :: "nat \<Rightarrow> char" where
  "digit d = ''0123456789'' ! d"

fun decimal :: "nat \<Rightarrow> string" where
  "decimal n = (if 10 \<le> n then decimal (n div 10) @ [digit (n mod 10)] else [digit n])"

text \<open>
  \<open>DelayQueue.__init__\<close> (lines 86-122). The arguments \<open>queue\<close>, \<open>exc_route\<close>,
  \<open>name\<close>, \<open>parent\<close> and \<open>error_handler\<close> are optional (\<open>None\<close> by default).
  The result is the new object's address, or the \<open>ValueError\<close> of line 105, raised before
  the object is counted.
\<close>

definition DelayQueue_init ::
  "world \<Rightarrow> promise option list option \<Rightarrow> int \<Rightarrow> int \<Rightarrow> string option \<Rightarrow> bool \<Rightarrow>
   string option \<Rightarrow> addr option \<Rightarrow> string option \<Rightarrow> error + (addr \<times> world)" where
  "DelayQueue_init w queue_arg burst_limit_arg time_limit_ms exc_route_arg autostart name_arg
       parent_arg error_handler =
     (if exc_route_arg \<noteq> None \<and> error_handler \<noteq> None then Inl ValueError
      else
        let self = instance_count w;
            count = Suc (instance_count w);
            dq = \<lparr>queue = (case queue_arg of None \<Rightarrow> [] | Some q \<Rightarrow> q),
                  burst_limit = burst_limit_arg,
                  time_limit = time_limit_of time_limit_ms,
                  parent = parent_arg,
                  dispatcher = None,
                  exc_route = (case exc_route_arg of Some h \<Rightarrow> Handler h
                               | None \<Rightarrow> (case error_handler of Some h \<Rightarrow> Handler h
                                          | None \<Rightarrow> Default_exception_handler)),
                  exit_req = False,
                  name = (case name_arg of None \<Rightarrow> ''DelayQueue-'' @ decimal count
                          | Some n \<Rightarrow> n),
                  thread = (if autostart then Running else Not_started),
                  run_times = []\<rparr>
        in Inr (self, w\<lparr>heap := (heap w)(self := Some dq), instance_count := count\<rparr>))"

text \<open>
  The methods below take the address of \<open>self\<close>. An address without an object has no
  counterpart in the program (a reference always leads to its object); the model answers
  \<open>NoSuchObject\<close> there to stay total.
\<close>

text \<open>\<open>DelayQueue.set_dispatcher\<close> (lines 124-131).\<close>

definition DelayQueue_set_dispatcher :: "world \<Rightarrow> addr \<Rightarrow> string \<Rightarrow> world" where
  "DelayQueue_set_dispatcher w self d =
     (case heap w self of None \<Rightarrow> w
      | Some dq \<Rightarrow> w\<lparr>heap := (heap w)(self := Some (dq\<lparr>dispatcher := Some d\<rparr>))\<rparr>)"

text \<open>
  \<open>Thread.start\<close>, inherited by DelayQueue: a thread can be started once; a second call
  raises \<open>RuntimeError\<close>.
\<close>

definition DelayQueue_start :: "world \<Rightarrow> addr \<Rightarrow> error option \<times> world" where
  "DelayQueue_start w self =
     (case heap w self of None \<Rightarrow> (Some NoSuchObject, w)
      | Some dq \<Rightarrow>
          if thread dq = Not_started
          then (None, w\<lparr>heap := (heap w)(self := Some (dq\<lparr>thread := Running\<rparr>))\<rparr>)
          else (Some RuntimeError, w))"

text \<open>
  \<open>DelayQueue.put\<close> (lines 190-213). Line 204 parses as
  \<open>not (bool(promise) ^ all(...))\<close>; on booleans \<open>^\<close> is inequality. The queue
  is unbounded, so \<open>self._queue.put\<close> does not block. The result is the promise returned
  and the new state, or the exception raised (the state is then unchanged).
\<close>

definition DelayQueue_put ::
  "world \<Rightarrow> addr \<Rightarrow> callable option \<Rightarrow> string option \<Rightarrow> string option \<Rightarrow> promise option \<Rightarrow>
   error + (promise \<times> world)" where
  "DelayQueue_put w self func args kwargs promise_arg =
     (case heap w self of None \<Rightarrow> Inl NoSuchObject
      | Some dq \<Rightarrow>
          if \<not> ((promise_arg \<noteq> None) \<noteq> (func \<noteq> None \<and> args \<noteq> None \<and> kwargs \<noteq> None))
          then Inl ValueError
          else if \<not> is_alive dq \<or> exit_req dq then Inl DelayQueueError
          else
            let p = (case promise_arg of Some p \<Rightarrow> p
                     | None \<Rightarrow> Promise (the func) (the args) (the kwargs))
            in Inr (p, w\<lparr>heap := (heap w)(self := Some (dq\<lparr>queue := queue dq @ [Some p]\<rparr>))\<rparr>))"

text \<open>
  \<open>DelayQueue.stop\<close> (lines 168-184): the flag is set and \<open>None\<close> is put on the
  queue; then \<open>join\<close> waits for the worker, which changes no field by itself (the worker's
  progress is a \<open>run_iteration\<close> step), and raises \<open>RuntimeError\<close> on a thread that
  was never started. The state changes made before the exception remain.
\<close>

definition DelayQueue_stop :: "world \<Rightarrow> addr \<Rightarrow> error option \<times> world" where
  "DelayQueue_stop w self =
     (case heap w self of None \<Rightarrow> (Some NoSuchObject, w)
      | Some dq \<Rightarrow>
          let dq' = dq\<lparr>exit_req := True, queue := queue dq @ [None]\<rparr>;
              w' = w\<lparr>heap := (heap w)(self := Some dq')\<rparr>
          in (if thread dq = Not_started then Some RuntimeError else None, w'))"

text \<open>Calling the error handler \<open>self.exc_route(promise.exception)\<close> (line 166).\<close>

definition call_exc_route :: "handler \<Rightarrow> error \<Rightarrow> world \<Rightarrow> error option \<times> world" where
  "call_exc_route h e w =
     (case h of Default_exception_handler \<Rightarrow> (Some e, w)
      | Handler f \<Rightarrow> (None, w\<lparr>routed := routed w @ [(f, e)]\<rparr>))"

text \<open>
  Lines 156-166 of \<open>run\<close>, for the dequeued \<open>item\<close>: the exception that escapes, if
  any, and the new state. Calling \<open>run\<close> on \<open>None\<close> raises \<open>AttributeError\<close>.
\<close>

definition dispatch :: "world \<Rightarrow> delay_queue \<Rightarrow> promise option \<Rightarrow> error option \<times> world" where
  "dispatch w dq item =
     (case parent dq of
        Some par \<Rightarrow>
          (case DelayQueue_put w par None None None item of
             Inl e \<Rightarrow> (Some e, w)
           | Inr (p, w') \<Rightarrow> (None, w'))
      | None \<Rightarrow>
          (case item of
             None \<Rightarrow> (Some AttributeError, w)
           | Some p \<Rightarrow>
               let p' = promise_run p;
                   w1 = w\<lparr>ran := ran w @ [p']\<rparr>
               in (case dispatcher dq of
                     Some d \<Rightarrow> (None, w1\<lparr>post_processed := post_processed w1 @ [(d, p')]\<rparr>)
                   | None \<Rightarrow>
                       (case p_exception p' of
                          Some e \<Rightarrow> call_exc_route (exc_route dq) e w1
                        | None \<Rightarrow> (None, w1)))))"

text \<open>An exception that escapes \<open>run\<close> ends the worker thread.\<close>

definition thread_dies :: "world \<Rightarrow> addr \<Rightarrow> error \<Rightarrow> world" where
  "thread_dies w self e =
     (case heap w self of None \<Rightarrow> w
      | Some dq \<Rightarrow> w\<lparr>heap := (heap w)(self := Some (dq\<lparr>thread := Terminated (Some e)\<rparr>))\<rparr>)"

text \<open>
  One iteration of the loop of \<open>DelayQueue.run\<close> (lines 136-166) in the worker thread of
  \<open>self\<close>, with the clock reading \<open>now\<close> at line 142. The result is \<open>None\<close> when
  there is no iteration to run: the thread is not running, or it is blocked in
  \<open>self._queue.get()\<close> on an empty queue. When line 154 raises, \<open>times\<close> has already
  been updated.
\<close>

definition run_iteration :: "world \<Rightarrow> addr \<Rightarrow> real \<Rightarrow> world option" where
  "run_iteration w self now =
     (case heap w self of None \<Rightarrow> None
      | Some dq \<Rightarrow>
          if thread dq \<noteq> Running then None
          else
            (case queue dq of
               [] \<Rightarrow> None
             | item # rest \<Rightarrow>
                 if exit_req dq
                 then Some (w\<lparr>heap := (heap w)(self :=
                        Some (dq\<lparr>queue := rest, thread := Terminated None\<rparr>))\<rparr>)
                 else
                   (case delay_routine (burst_limit dq) (time_limit dq) (run_times dq) now of
                      Inl e \<Rightarrow>
                        Some (w\<lparr>heap := (heap w)(self :=
                          Some (dq\<lparr>queue := rest,
                            run_times := window_update (time_limit dq) now (run_times dq),
                            thread := Terminated (Some e)\<rparr>))\<rparr>)
                    | Inr (tms', secs) \<Rightarrow>
                        let dq1 = dq\<lparr>queue := rest, run_times := tms'\<rparr>;
                            w1 = w\<lparr>heap := (heap w)(self := Some dq1)\<rparr>
                        in (case dispatch w1 dq1 item of
                              (None, w2) \<Rightarrow> Some w2
                            | (Some e, w2) \<Rightarrow> Some (thread_dies w2 self e)))))"

subsection \<open>MessageQueue objects\<close>

definition DEFAULT_QUEUE :: string where
  "DEFAULT_QUEUE = ''default_delay_queue''"

definition GROUP_QUEUE :: string where
  "GROUP_QUEUE = ''group_delay_queue''"

text \<open>
  The fields of a MessageQueue; \<open>delay_queues\<close> is the dictionary \<open>_delay_queues\<close> from
  names to DelayQueue references, in insertion order. There is no field for an error
  handler: \<open>__init__\<close> only hands its argument to the two queues it creates.
\<close>

record message_queue =
  running :: bool
  mq_dispatcher :: "string option"
  delay_queues :: "(string \<times> addr) list"

text \<open>Dictionary assignment \<open>d[k] = v\<close> and \<open>d.pop(k)\<close>.\<close>

fun dict_set :: "(string \<times> addr) list \<Rightarrow> string \<Rightarrow> addr \<Rightarrow> (string \<times> addr) list" where
  "dict_set [] k v = [(k, v)]"
| "dict_set ((k', v') # d) k v =
     (if k' = k then (k, v) # d else (k', v') # dict_set d k v)"

fun dict_pop :: "(string \<times> addr) list \<Rightarrow> string \<Rightarrow> error + (addr \<times> (string \<times> addr) list)" where
  "dict_pop [] k = Inl KeyError"
| "dict_pop ((k', v') # d) k =
     (if k' = k then Inr (v', d)
      else (case dict_pop d k of Inl e \<Rightarrow> Inl e | Inr (v, d') \<Rightarrow> Inr (v, (k', v') # d')))"

text \<open>\<open>MessageQueue.__init__\<close> (lines 247-285).\<close>

definition MessageQueue_init ::
  "world \<Rightarrow> int \<Rightarrow> int \<Rightarrow> int \<Rightarrow> int \<Rightarrow> string option \<Rightarrow> bool \<Rightarrow> string option \<Rightarrow>
   error + (message_queue \<times> world)" where
  "MessageQueue_init w all_burst_limit all_time_limit_ms group_burst_limit group_time_limit_ms
       exc_route_arg autostart error_handler =
     (if exc_route_arg \<noteq> None \<and> error_handler \<noteq> None then Inl ValueError
      else
        let h = (case exc_route_arg of Some f \<Rightarrow> Some f | None \<Rightarrow> error_handler)
        in (case DelayQueue_init w None all_burst_limit all_time_limit_ms None autostart
                  (Some DEFAULT_QUEUE) None h of
              Inl e \<Rightarrow> Inl e
            | Inr (d, w1) \<Rightarrow>
                (case DelayQueue_init w1 None group_burst_limit group_time_limit_ms None
                        autostart (Some GROUP_QUEUE) (Some d) h of
                   Inl e \<Rightarrow> Inl e
                 | Inr (g, w2) \<Rightarrow>
                     Inr (\<lparr>running = autostart, mq_dispatcher = None,
                           delay_queues = [(DEFAULT_QUEUE, d), (GROUP_QUEUE, g)]\<rparr>, w2))))"

text \<open>\<open>MessageQueue.add_delay_queue\<close> (lines 287-300).\<close>

definition add_delay_queue ::
  "message_queue \<Rightarrow> world \<Rightarrow> addr \<Rightarrow> error option \<times> message_queue \<times> world" where
  "add_delay_queue mq w delay_queue =
     (case heap w delay_queue of None \<Rightarrow> (Some NoSuchObject, mq, w)
      | Some dq \<Rightarrow>
          let mq1 = mq\<lparr>delay_queues := dict_set (delay_queues mq) (name dq) delay_queue\<rparr>;
              w1 = (case mq_dispatcher mq of
                      Some d \<Rightarrow> DelayQueue_set_dispatcher w delay_queue d
                    | None \<Rightarrow> w)
          in if running mq \<and> \<not> is_alive dq
             then (case DelayQueue_start w1 delay_queue of (r, w2) \<Rightarrow> (r, mq1, w2))
             else (None, mq1, w1))"

text \<open>\<open>MessageQueue.remove_delay_queue\<close> (lines 302-314).\<close>

definition remove_delay_queue ::
  "message_queue \<Rightarrow> world \<Rightarrow> string \<Rightarrow> error option \<times> message_queue \<times> world" where
  "remove_delay_queue mq w nm =
     (case dict_pop (delay_queues mq) nm of
        Inl e \<Rightarrow> (Some e, mq, w)
      | Inr (delay_queue, d') \<Rightarrow>
          let mq1 = mq\<lparr>delay_queues := d'\<rparr>
          in (case heap w delay_queue of None \<Rightarrow> (Some NoSuchObject, mq1, w)
              | Some dq \<Rightarrow>
                  if running mq \<and> is_alive dq
                  then (case DelayQueue_stop w delay_queue of (r, w1) \<Rightarrow> (r, mq1, w1))
                  else (None, mq1, w)))"

text \<open>
  \<open>MessageQueue.start\<close> (lines 316-320): the loop ends at the first exception, before
  line 320.
\<close>

fun start_each :: "world \<Rightarrow> addr list \<Rightarrow> error option \<times> world" where
  "start_each w [] = (None, w)"
| "start_each w (delay_queue # rest) =
     (case DelayQueue_start w delay_queue of
        (Some e, w1) \<Rightarrow> (Some e, w1)
      | (None, w1) \<Rightarrow> start_each w1 rest)"

definition MessageQueue_start ::
  "message_queue \<Rightarrow> world \<Rightarrow> error option \<times> message_queue \<times> world" where
  "MessageQueue_start mq w =
     (case start_each w (map snd (delay_queues mq)) of
        (Some e, w1) \<Rightarrow> (Some e, mq, w1)
      | (None, w1) \<Rightarrow> (None, mq\<lparr>running := True\<rparr>, w1))"

text \<open>\<open>MessageQueue.stop\<close> (lines 322-331).\<close>

fun stop_each :: "world \<Rightarrow> addr list \<Rightarrow> error option \<times> world" where
  "stop_each w [] = (None, w)"
| "stop_each w (delay_queue # rest) =
     (case DelayQueue_stop w delay_queue of
        (Some e, w1) \<Rightarrow> (Some e, w1)
      | (None, w1) \<Rightarrow> stop_each w1 rest)"

definition MessageQueue_stop ::
  "message_queue \<Rightarrow> world \<Rightarrow> error option \<times> message_queue \<times> world" where
  "MessageQueue_stop mq w =
     (case stop_each w (map snd (delay_queues mq)) of (r, w1) \<Rightarrow> (r, mq, w1))"

text \<open>\<open>MessageQueue.put\<close> (lines 333-347); \<open>*args\<close> and \<open>**kwargs\<close> are a tuple and
  a dictionary, never \<open>None\<close>.\<close>

definition MessageQueue_put ::
  "message_queue \<Rightarrow> world \<Rightarrow> callable option \<Rightarrow> string \<Rightarrow> string \<Rightarrow> string \<Rightarrow>
   error + (promise \<times> world)" where
  "MessageQueue_put mq w func delay_queue args kwargs =
     (case map_of (delay_queues mq) delay_queue of
        None \<Rightarrow> Inl KeyError
      | Some a \<Rightarrow> DelayQueue_put w a func (Some args) (Some kwargs) None)"

text \<open>\<open>MessageQueue.set_dispatcher\<close> (lines 349-356).\<close>

definition MessageQueue_set_dispatcher :: "message_queue \<Rightarrow> string \<Rightarrow> message_queue" where
  "MessageQueue_set_dispatcher mq d = mq\<lparr>mq_dispatcher := Some d\<rparr>"

subsection \<open>Histories\<close>

text \<open>
  What can happen to the DelayQueue objects of a state: a call of a public method from any
  thread, or an iteration of a worker. The methods of MessageQueue act on DelayQueue
  objects through these calls only. \<open>happen\<close> keeps the state a step leaves behind,
  whether it returned or raised.
\<close>

datatype event =
    Put addr "callable option" "string option" "string option" "promise option"
  | Stop addr
  | Start addr
  | Set_dispatcher addr string
  | Iteration addr real

fun happen :: "world \<Rightarrow> event \<Rightarrow> world" where
  "happen w (Put a func args kwargs p) =
     (case DelayQueue_put w a func args kwargs p of Inl e \<Rightarrow> w | Inr (p', w') \<Rightarrow> w')"
| "happen w (Stop a) = snd (DelayQueue_stop w a)"
| "happen w (Start a) = snd (DelayQueue_start w a)"
| "happen w (Set_dispatcher a d) = DelayQueue_set_dispatcher w a d"
| "happen w (Iteration a now) = (case run_iteration w a now of None \<Rightarrow> w | Some w' \<Rightarrow> w')"

text \<open>The shutdown flag of the object at an address is set.\<close>

definition flagged :: "world \<Rightarrow> addr \<Rightarrow> bool" where
  "flagged w a = (case heap w a of None \<Rightarrow> False | Some dq \<Rightarrow> exit_req dq)"

subsection \<open>Example states\<close>

text \<open>Two callables, and states built by the constructors and methods above, on which the
  theorems below are instantiated.\<close>

definition send_ok :: callable where
  "send_ok = \<lparr>c_name = ''send_message'', c_raises = None\<rparr>"

definition send_fails :: callable where
  "send_fails = \<lparr>c_name = ''send_photo'', c_raises = Some (TaskError ''timed out'')\<rparr>"

definition one_queue :: world where
  "one_queue = snd (projr (DelayQueue_init empty_world None 30 1000 None True (Some ''all'') None None))"

definition stopped_queue :: world where
  "stopped_queue = snd (DelayQueue_stop one_queue 0)"

text \<open>A MessageQueue with its two queues, without and with an error handler, and the
  latter's state after a third, unstarted DelayQueue was created.\<close>

definition registry :: "message_queue \<times> world" where
  "registry = projr (MessageQueue_init empty_world 30 1000 20 60000 None True None)"

definition handled_registry :: "message_queue \<times> world" where
  "handled_registry =
     projr (MessageQueue_init empty_world 30 1000 20 60000 None True (Some ''log_error''))"

definition extra_queue :: world where
  "extra_queue =
     snd (projr (DelayQueue_init (snd handled_registry) None 5 1000 None False (Some ''extra'')
       None None))"

definition default_dq :: "handler \<Rightarrow> delay_queue" where
  "default_dq h = \<lparr>queue = [], burst_limit = 30, time_limit = time_limit_of 1000, parent = None,
     dispatcher = None, exc_route = h, exit_req = False,
     name = ''default_delay_queue'', thread = Running, run_times = []\<rparr>"

definition group_dq :: "handler \<Rightarrow> delay_queue" where
  "group_dq h = \<lparr>queue = [], burst_limit = 20, time_limit = time_limit_of 60000, parent = Some 0,
     dispatcher = None, exc_route = h, exit_req = False,
     name = ''group_delay_queue'', thread = Running, run_times = []\<rparr>"

definition extra_dq :: delay_queue where
  "extra_dq = \<lparr>queue = [], burst_limit = 5, time_limit = time_limit_of 1000, parent = None,
     dispatcher = None, exc_route = Default_exception_handler, exit_req = False,
     name = ''extra'', thread = Not_started, run_times = []\<rparr>"

text \<open>A running queue holding one task.\<close>

definition pending_queue :: world where
  "pending_queue =
     snd (projr (DelayQueue_put one_queue 0 (Some send_fails) (Some ''chat'') (Some ''text'') None))"

text \<open>The MessageQueue of \<open>registry\<close> after a task was put on its group queue.\<close>

definition group_pending :: world where
  "group_pending =
     snd (projr (MessageQueue_put (fst registry) (snd registry) (Some send_ok) GROUP_QUEUE
       ''chat'' ''text''))"

text \<open>A running queue with \<open>burst_limit = 1\<close> holding one task.\<close>

definition serial_pending :: world where
  "serial_pending =
     (let w = snd (projr (DelayQueue_init empty_world None 1 1000 None True (Some ''serial'')
                None None))
      in snd (projr (DelayQueue_put w 0 (Some send_ok) (Some ''chat'') (Some ''text'') None)))"

text \<open>A running queue holding one task, whose worker has recorded the timestamps
  \<open>0\<close>, \<open>1/2\<close> and \<open>1\<close>.\<close>

definition warm_queue :: world where
  "warm_queue = pending_queue\<lparr>heap := (heap pending_queue)(0 :=
     map_option (\<lambda>dq. dq\<lparr>run_times := [0, 1/2, 1]\<rparr>) (heap pending_queue 0))\<rparr>"

section \<open>Properties of float rounding\<close>

lemma half_even_of_int: "half_even (of_int z) = z"
  by (simp add: half_even_def)

lemma binade_dyadic:
  assumes "m \<noteq> 0" and "\<bar>m\<bar> < 2 ^ 53" and "- 1074 \<le> k"
  shows "binade \<bar>of_int m * 2 powi k\<bar> - 52 \<le> k"
proof -
  let ?a = "\<bar>of_int m * 2 powi k :: real\<bar>"
  have pos: "0 < ?a" using assms(1) by simp
  have "?a = of_int \<bar>m\<bar> * 2 powi k" by (simp add: abs_mult)
  also have "\<dots> < 2 ^ 53 * 2 powi k"
  proof -
    have "(of_int \<bar>m\<bar> :: real) < of_int (2 ^ 53)" using assms(2) by (simp only: of_int_less_iff)
    then have "(of_int \<bar>m\<bar> :: real) < 2 ^ 53" by simp
    moreover have "(0::real) < 2 powi k" by simp
    ultimately show ?thesis by (rule mult_strict_right_mono)
  qed
  also have "\<dots> = 2 powi (53 + k)"
    by (simp add: power_int_add)
  also have "\<dots> = 2 powr real_of_int (53 + k)"
    by (rule powr_real_of_int'[symmetric]) simp_all
  finally have "?a < 2 powr real_of_int (53 + k)" .
  then have "log 2 ?a < real_of_int (53 + k)"
    using pos by (simp add: log_less_iff)
  then have "\<lfloor>log 2 ?a\<rfloor> < 53 + k" by (simp add: floor_less_iff)
  then show ?thesis using assms(3) by (simp add: binade_def)
qed

text \<open>A value \<open>m * 2 powi k\<close> with \<open>\<bar>m\<bar> < 2 ^ 53\<close> and \<open>k \<ge> -1074\<close> is a float:
  rounding leaves it as it is.\<close>

lemma fl_dyadic:
  assumes "\<bar>m\<bar> < 2 ^ 53" and "- 1074 \<le> k"
  shows "fl (of_int m * 2 powi k) = of_int m * 2 powi k"
proof (cases "m = 0")
  case True
  then show ?thesis by (simp add: fl_def)
next
  case False
  let ?x = "of_int m * 2 powi k :: real"
  define e where "e = binade \<bar>?x\<bar> - 52"
  have le: "e \<le> k" unfolding e_def using False assms by (rule binade_dyadic)
  define j where "j = nat (k - e)"
  have k: "k = e + int j" using le by (simp add: j_def)
  have p: "(2::real) powi k = 2 ^ j * 2 powi e"
    by (simp add: k power_int_add)
  have "\<bar>?x\<bar> / 2 powi e = of_int (\<bar>m\<bar> * 2 ^ j)"
    by (simp add: abs_mult p)
  then have h: "half_even (\<bar>?x\<bar> / 2 powi e) = \<bar>m\<bar> * 2 ^ j"
    by (simp only: half_even_of_int)
  have nz: "?x \<noteq> 0" using False by simp
  have "fl ?x = sgn ?x * of_int (\<bar>m\<bar> * 2 ^ j) * 2 powi e"
    using nz h by (simp add: fl_def Let_def e_def del: of_int_mult of_int_power)
  also have "\<dots> = ?x"
    by (simp add: p sgn_mult abs_mult mult.assoc[symmetric] mult_sgn_abs)
  finally show ?thesis .
qed

lemma fl_small:
  "fl 0 = 0" "fl 1 = 1" "fl (- 1) = - 1" "fl (1/2) = 1/2" "fl (- (1/2)) = - (1/2)"
  using fl_dyadic[of 0 0] fl_dyadic[of 1 0] fl_dyadic[of "-1" 0] fl_dyadic[of 1 "-1"]
    fl_dyadic[of "-1" "-1"]
  by simp_all

lemma time_limit_of_1000: "time_limit_of 1000 = 1"
  by (simp add: time_limit_of_def fl_small)

section \<open>Properties of the delay routine\<close>

lemma recent_filter: "recent tms c = filter (\<lambda>t. c \<le> t) tms"
  by (induction tms) simp_all

lemma window_update_length:
  "length (window_update w now tms) \<le> Suc (length tms)"
  by (simp add: window_update_def Let_def recent_filter)

text \<open>In a strictly increasing list the entries \<open>\<ge> c\<close> are a suffix.\<close>

lemma filter_suffix:
  assumes "sorted_wrt (<) (xs :: real list)"
  shows "\<exists>ys. xs = ys @ filter (\<lambda>t. c \<le> t) xs \<and> (\<forall>t\<in>set ys. t < c)"
  using assms
proof (induction xs)
  case Nil
  then show ?case by simp
next
  case (Cons x xs)
  show ?case
  proof (cases "c \<le> x")
    case True
    with Cons.prems have "\<forall>t\<in>set (x # xs). c \<le> t" by auto
    then have "filter (\<lambda>t. c \<le> t) (x # xs) = x # xs" by (simp only: filter_True)
    then show ?thesis by simp
  next
    case False
    from Cons obtain ys where "xs = ys @ filter (\<lambda>t. c \<le> t) xs" "\<forall>t\<in>set ys. t < c"
      by auto
    with False have "x # xs = (x # ys) @ filter (\<lambda>t. c \<le> t) (x # xs) \<and> (\<forall>t\<in>set (x # ys). t < c)"
      by simp
    then show ?thesis by blast
  qed
qed

lemma sorted_le_last:
  "sorted_wrt (<) (xs :: real list) \<Longrightarrow> x \<in> set xs \<Longrightarrow> x \<le> last xs"
proof (induction xs)
  case Nil
  then show ?case by simp
next
  case (Cons y ys)
  show ?case
  proof (cases "ys = []")
    case True
    with Cons.prems show ?thesis by simp
  next
    case False
    then have ys: "last ys \<in> set ys" by simp
    show ?thesis
    proof (cases "x = y")
      case True
      from Cons.prems(1) ys have "y < last ys" by simp
      with True \<open>ys \<noteq> []\<close> show ?thesis by simp
    next
      case False
      with Cons.prems have "x \<in> set ys" "sorted_wrt (<) ys" by auto
      with Cons.IH \<open>ys \<noteq> []\<close> show ?thesis by simp
    qed
  qed
qed

text \<open>With an exact cutoff, the update drops a prefix of entries older than the window.\<close>

lemma window_update_split:
  assumes "sorted_wrt (<) tms" and "fl (now - w) = now - w"
  shows "\<exists>dropped. tms @ [now] = dropped @ window_update w now tms
           \<and> (\<forall>t\<in>set dropped. t < now - w)"
proof (cases "tms \<noteq> [] \<and> now - w > tms ! (length tms - 1)")
  case True
  then have l: "last tms < now - w" by (simp add: last_conv_nth)
  have "\<forall>t\<in>set tms. t \<le> last tms"
    using assms(1) by (auto intro: sorted_le_last)
  with l have "\<forall>t\<in>set tms. t < now - w" by fastforce
  moreover have "window_update w now tms = [now]"
    using True assms(2) by (simp add: window_update_def)
  ultimately show ?thesis by simp
next
  case False
  then have u: "window_update w now tms = filter (\<lambda>t. now - w \<le> t) tms @ [now]"
    using assms(2) by (auto simp: window_update_def recent_filter)
  from filter_suffix[OF assms(1), of "now - w"] obtain ys
    where "tms = ys @ filter (\<lambda>t. now - w \<le> t) tms" "\<forall>t\<in>set ys. t < now - w" by blast
  then have "tms @ [now] = ys @ window_update w now tms \<and> (\<forall>t\<in>set ys. t < now - w)"
    using u by simp
  then show ?thesis by blast
qed

lemma window_update_drops_head:
  assumes "sorted_wrt (<) tms" and "2 \<le> length tms" and "tms ! 1 + w \<le> now"
    and "fl (now - w) = now - w"
  shows "length (window_update w now tms) \<le> length tms"
proof -
  have h: "tms ! 0 < tms ! 1"
    using assms(1,2) by (simp add: sorted_wrt_iff_nth_less)
  have "0 < length tms" using assms(2) by linarith
  then have "tms ! 0 \<in> set tms" by (rule nth_mem)
  moreover have "\<not> (now - w \<le> tms ! 0)" using h assms(3) by linarith
  ultimately have "length (filter (\<lambda>t. now - w \<le> t) tms) < length tms"
    by (rule length_filter_less)
  then show ?thesis
    using assms(4) by (simp add: window_update_def Let_def recent_filter)
qed

lemma throttle_Inr:
  assumes "throttle b w now tms = Inr secs" and "b \<le> int (length tms)"
    and "fl (now - w) = now - w"
    and "fl (tms ! 1 - fl (now - w)) = tms ! 1 - fl (now - w)"
  shows "2 \<le> length tms \<and> now + secs = tms ! 1 + w"
  using assms by (auto simp: throttle_def Let_def sleep_def split: if_splits)

lemma in_window_length: "length (in_window a w tms) \<le> length tms"
  by (simp add: in_window_def)

lemma in_window_append: "in_window a w (xs @ ys) = in_window a w xs @ in_window a w ys"
  by (simp add: in_window_def)

lemma in_window_below: "\<forall>t\<in>set xs. t < a \<Longrightarrow> in_window a w xs = []"
  by (induction xs) (auto simp: in_window_def)

text \<open>
  The loop invariant on an exact run with strictly increasing readings: \<open>times\<close> is
  the end of the list of all readings so far, what precedes it is older than every later
  window, \<open>times\<close> has at most \<open>burst_limit\<close> entries, and when it is full the worker
  does not read the clock again before \<open>times[1] + time_limit\<close>.
\<close>

lemma worker_window_bound:
  assumes "1 \<le> b"
    and "sorted_wrt (<) (hist @ nows)"
    and "hist = old @ tms"
    and "\<forall>t\<in>set old. \<forall>n\<in>set nows. t < n - w"
    and "int (length tms) \<le> b"
    and "int (length tms) = b \<longrightarrow> 2 \<le> length tms \<and> tms ! 1 + w \<le> wake"
    and "exact_clock b w tms wake nows"
    and "exact_run b w tms nows"
    and "\<forall>a. int (length (in_window a w hist)) \<le> b"
  shows "(\<forall>n \<le> length (worker_times b w tms nows).
            \<forall>a. int (length (in_window a w (hist @ take n nows))) \<le> b)
       \<and> (\<forall>tms' \<in> set (worker_times b w tms nows). int (length tms') \<le> b)"
  using assms(2-)
proof (induction nows arbitrary: hist old tms wake)
  case Nil
  then show ?case by simp
next
  case (Cons now nows)
  let ?u = "window_update w now tms"
  have wt: "worker_times b w tms (now # nows) =
      ?u # (case throttle b w now ?u of Inl e \<Rightarrow> [] | Inr secs \<Rightarrow> worker_times b w ?u nows)"
    by (simp add: Let_def)
  have ex: "fl (now - w) = now - w" using Cons.prems(7) by simp
  have wake: "wake \<le> now" using Cons.prems(6) by simp
  have sh: "sorted_wrt (<) hist" and later: "\<forall>n\<in>set nows. now < n"
    and sn: "sorted_wrt (<) ((hist @ [now]) @ nows)"
    using Cons.prems(1) by (auto simp: sorted_wrt_append)
  have st: "sorted_wrt (<) tms" using sh Cons.prems(2) by (simp add: sorted_wrt_append)
  have len: "int (length ?u) \<le> b"
  proof (cases "int (length tms) = b")
    case True
    with Cons.prems(5) wake have "2 \<le> length tms" "tms ! 1 + w \<le> now" by auto
    with st ex have "length ?u \<le> length tms" by (simp add: window_update_drops_head)
    with True show ?thesis by linarith
  next
    case False
    with Cons.prems(4) have "int (length tms) < b" by simp
    moreover have "length ?u \<le> Suc (length tms)" by (rule window_update_length)
    ultimately show ?thesis by linarith
  qed
  obtain dropped where dr: "tms @ [now] = dropped @ ?u" "\<forall>t\<in>set dropped. t < now - w"
    using window_update_split[OF st ex] by blast
  have h': "hist @ [now] = (old @ dropped) @ ?u"
    using Cons.prems(2) dr(1) by simp
  have oldd: "\<forall>t\<in>set (old @ dropped). t < now - w"
    using Cons.prems(3) dr(2) by auto
  have old': "\<forall>t\<in>set (old @ dropped). \<forall>n\<in>set nows. t < n - w"
  proof (intro ballI)
    fix t n assume "t \<in> set (old @ dropped)" "n \<in> set nows"
    with oldd later have "t < now - w" "now < n" by auto
    then show "t < n - w" by linarith
  qed
  have bound': "\<forall>a. int (length (in_window a w (hist @ [now]))) \<le> b"
  proof
    fix a
    show "int (length (in_window a w (hist @ [now]))) \<le> b"
    proof (cases "a \<le> now \<and> now < a + w")
      case True
      then have "\<forall>t\<in>set (old @ dropped). t < a" using oldd by fastforce
      then have "in_window a w (old @ dropped) = []" by (rule in_window_below)
      then have "in_window a w (hist @ [now]) = in_window a w ?u"
        by (simp only: h' in_window_append append_Nil)
      then have "length (in_window a w (hist @ [now])) = length (in_window a w ?u)"
        by simp
      moreover have "length (in_window a w ?u) \<le> length ?u" by (rule in_window_length)
      ultimately show ?thesis using len by linarith
    next
      case False
      then have "in_window a w (hist @ [now]) = in_window a w hist"
        by (auto simp: in_window_def)
      with Cons.prems(8) show ?thesis by simp
    qed
  qed
  show ?case
  proof (cases "throttle b w now ?u")
    case (Inl e)
    with wt have wt1: "worker_times b w tms (now # nows) = [?u]" by simp
    have "\<forall>n \<le> length (worker_times b w tms (now # nows)).
            \<forall>a. int (length (in_window a w (hist @ take n (now # nows)))) \<le> b"
    proof (intro allI impI)
      fix n a assume "n \<le> length (worker_times b w tms (now # nows))"
      with wt1 have "n = 0 \<or> n = 1" by auto
      then show "int (length (in_window a w (hist @ take n (now # nows)))) \<le> b"
        using Cons.prems(8) bound' by auto
    qed
    moreover have "\<forall>tms' \<in> set (worker_times b w tms (now # nows)). int (length tms') \<le> b"
      using wt1 len by simp
    ultimately show ?thesis by blast
  next
    case (Inr secs)
    with wt have wt2: "worker_times b w tms (now # nows) = ?u # worker_times b w ?u nows"
      by simp
    have full: "int (length ?u) = b \<longrightarrow> 2 \<le> length ?u \<and> ?u ! 1 + w \<le> now + secs"
    proof
      assume eq: "int (length ?u) = b"
      then have le: "b \<le> int (length ?u)" by simp
      with Inr have two: "1 < length ?u"
        by (auto simp: throttle_def Let_def split: if_splits)
      with le Cons.prems(7) have
        "fl (?u ! 1 - fl (now - w)) = ?u ! 1 - fl (now - w)"
        by (auto simp: Let_def)
      with throttle_Inr[OF Inr le ex] show "2 \<le> length ?u \<and> ?u ! 1 + w \<le> now + secs"
        by simp
    qed
    have ec: "exact_clock b w ?u (now + secs) nows"
      using Cons.prems(6) Inr by (simp add: Let_def)
    have er: "exact_run b w ?u nows"
      using Cons.prems(7) Inr by (simp add: Let_def)
    note IH = Cons.IH[OF sn h' old' len full ec er bound']
    have "\<forall>n \<le> length (worker_times b w tms (now # nows)).
            \<forall>a. int (length (in_window a w (hist @ take n (now # nows)))) \<le> b"
    proof (intro allI impI)
      fix n a assume n: "n \<le> length (worker_times b w tms (now # nows))"
      show "int (length (in_window a w (hist @ take n (now # nows)))) \<le> b"
      proof (cases n)
        case 0
        with Cons.prems(8) show ?thesis by simp
      next
        case (Suc m)
        with n wt2 have "m \<le> length (worker_times b w ?u nows)" by simp
        with IH have "int (length (in_window a w ((hist @ [now]) @ take m nows))) \<le> b"
          by blast
        with Suc show ?thesis by simp
      qed
    qed
    moreover have "\<forall>tms' \<in> set (worker_times b w tms (now # nows)). int (length tms') \<le> b"
      using wt2 len IH by simp
    ultimately show ?thesis by blast
  qed
qed

text \<open>
  C1, as stated, at a clock that reads the same value in successive iterations (sleep
  wakes exactly on time and an iteration takes no time): with \<open>burst_limit = 2\<close> and
  \<open>time_limit_ms = 1000\<close> and the readings \<open>0, 0, 1, 1, 1\<close> the fifth value of
  \<open>times\<close> is \<open>[0, 0, 1, 1, 1]\<close>, of which three entries lie in \<open>[1, 2)\<close>. All
  float operations on this run are exact.
\<close>

theorem window_bound_counterexample:
  "ideal_clock 2 (time_limit_of 1000) [0, 0, 1, 1, 1] \<and>
   worker_times 2 (time_limit_of 1000) [] [0, 0, 1, 1, 1] ! 4 = [0, 0, 1, 1, 1] \<and>
   \<not> int (length (in_window 1 (time_limit_of 1000)
          (worker_times 2 (time_limit_of 1000) [] [0, 0, 1, 1, 1] ! 4))) \<le> 2"
  by (simp add: ideal_clock_def window_update_def throttle_def time_limit_of_1000 sleep_def
      in_window_def Let_def fl_small)

text \<open>
  C1 (amended): for \<open>burst_limit = B \<ge> 1\<close> and \<open>time_limit_ms = W * 1000\<close>, on a run
  of the worker loop on which successive clock readings strictly increase, sleep wakes
  exactly on time and the float operations of the delay routine are exact (the division
  of line 100 and the differences of lines 143 and 154), at every point at most \<open>B\<close> of
  the timestamps the worker has recorded so far fall in any half-open interval of length
  \<open>W\<close>, and the same holds of the entries of its \<open>times\<close> list.
\<close>

theorem window_bound:
  assumes "1 \<le> b"
    and "sorted_wrt (<) nows"
    and "time_limit_of time_limit_ms = real_of_int time_limit_ms / 1000"
    and "ideal_clock b (time_limit_of time_limit_ms) nows"
    and "exact_run b (time_limit_of time_limit_ms) [] nows"
    and "n \<le> length (worker_times b (time_limit_of time_limit_ms) [] nows)"
    and "tms \<in> set (worker_times b (time_limit_of time_limit_ms) [] nows)"
  shows "int (length (in_window a (real_of_int time_limit_ms / 1000) (take n nows))) \<le> b
       \<and> int (length (in_window a (real_of_int time_limit_ms / 1000) tms)) \<le> b"
proof -
  let ?w = "time_limit_of time_limit_ms"
  obtain now rest where nows: "nows = now # rest"
    using assms(7) by (cases nows) auto
  have ec: "exact_clock b ?w [] now nows"
    using assms(4) nows by (simp add: ideal_clock_def)
  have b0: "\<forall>a. int (length (in_window a ?w [])) \<le> b"
    using assms(1) by (simp add: in_window_def)
  have "(\<forall>n \<le> length (worker_times b ?w [] nows).
            \<forall>a. int (length (in_window a ?w ([] @ take n nows))) \<le> b)
       \<and> (\<forall>tms' \<in> set (worker_times b ?w [] nows). int (length tms') \<le> b)"
    by (rule worker_window_bound[OF assms(1) _ _ _ _ _ ec assms(5) b0, where old = "[]"])
      (use assms(1,2) in simp_all)
  then have "int (length (in_window a ?w (take n nows))) \<le> b" and "int (length tms) \<le> b"
    using assms(6,7) by auto
  moreover have "length (in_window a ?w tms) \<le> length tms"
    by (rule in_window_length)
  ultimately show ?thesis using assms(3) by simp
qed

theorem window_bound_witness:
  "(1::int) \<le> 2 \<and> sorted_wrt (<) [0, 1/2, 3/2 :: real] \<and>
   time_limit_of 1000 = real_of_int 1000 / 1000 \<and>
   ideal_clock 2 (time_limit_of 1000) [0, 1/2, 3/2] \<and>
   exact_run 2 (time_limit_of 1000) [] [0, 1/2, 3/2] \<and>
   3 \<le> length (worker_times 2 (time_limit_of 1000) [] [0, 1/2, 3/2]) \<and>
   [1/2, 3/2] \<in> set (worker_times 2 (time_limit_of 1000) [] [0, 1/2, 3/2]) \<and>
   int (length (in_window (3/4) (real_of_int 1000 / 1000) (take 3 [0, 1/2, 3/2]))) \<le> 2 \<and>
   int (length (in_window (3/4) (real_of_int 1000 / 1000) [1/2, 3/2])) \<le> 2"
proof -
  have h1: "(1::int) \<le> 2" by simp
  have h2: "sorted_wrt (<) [0, 1/2, 3/2 :: real]" by simp
  have h3: "time_limit_of 1000 = real_of_int 1000 / 1000"
    by (simp add: time_limit_of_1000)
  have h4: "ideal_clock 2 (time_limit_of 1000) [0, 1/2, 3/2]"
    by (simp add: ideal_clock_def window_update_def throttle_def time_limit_of_1000 sleep_def
        Let_def fl_small)
  have h5: "exact_run 2 (time_limit_of 1000) [] [0, 1/2, 3/2]"
    by (simp add: window_update_def throttle_def time_limit_of_1000 sleep_def Let_def fl_small)
  have h6: "3 \<le> length (worker_times 2 (time_limit_of 1000) [] [0, 1/2, 3/2])"
    by (simp add: window_update_def throttle_def time_limit_of_1000 sleep_def Let_def fl_small)
  have h7: "[1/2, 3/2] \<in> set (worker_times 2 (time_limit_of 1000) [] [0, 1/2, 3/2])"
    by (simp add: window_update_def throttle_def time_limit_of_1000 sleep_def Let_def fl_small)
  from window_bound[OF h1 h2 h3 h4 h5 h6 h7, of "3/4"] h1 h2 h3 h4 h5 h6 h7
  show ?thesis by blast
qed

section \<open>The example states\<close>

lemma one_queue_heap: "heap one_queue 0 = Some \<lparr>queue = [], burst_limit = 30, time_limit = time_limit_of 1000, parent = None,
   dispatcher = None, exc_route = Default_exception_handler, exit_req = False, name = ''all'',
   thread = Running, run_times = []\<rparr>"
  by (simp add: one_queue_def DelayQueue_init_def empty_world_def Let_def)

lemma stopped_queue_heap: "heap stopped_queue 0 = Some \<lparr>queue = [None], burst_limit = 30, time_limit = time_limit_of 1000, parent = None,
   dispatcher = None, exc_route = Default_exception_handler, exit_req = True, name = ''all'',
   thread = Running, run_times = []\<rparr>"
  by (simp add: stopped_queue_def DelayQueue_stop_def one_queue_heap Let_def)

lemma pending_queue_heap:
  "heap pending_queue 0 = Some \<lparr>queue = [Some (Promise send_fails ''chat'' ''text'')],
     burst_limit = 30, time_limit = time_limit_of 1000, parent = None, dispatcher = None,
     exc_route = Default_exception_handler, exit_req = False, name = ''all'',
     thread = Running, run_times = []\<rparr>"
  by (simp add: pending_queue_def DelayQueue_put_def one_queue_heap is_alive_def Let_def)

lemma serial_pending_heap:
  "heap serial_pending 0 = Some \<lparr>queue = [Some (Promise send_ok ''chat'' ''text'')],
     burst_limit = 1, time_limit = time_limit_of 1000, parent = None, dispatcher = None,
     exc_route = Default_exception_handler, exit_req = False, name = ''serial'',
     thread = Running, run_times = []\<rparr>"
  "ran serial_pending = []"
  by (simp_all add: serial_pending_def DelayQueue_init_def DelayQueue_put_def empty_world_def
      is_alive_def Let_def)

lemma registry_eq:
  "registry = (\<lparr>running = True, mq_dispatcher = None,
       delay_queues = [(''default_delay_queue'', 0), (''group_delay_queue'', 1)]\<rparr>,
     \<lparr>heap = ((\<lambda>a. None)(0 := Some (default_dq Default_exception_handler)))
               (1 := Some (group_dq Default_exception_handler)),
      instance_count = 2, ran = [], post_processed = [], routed = []\<rparr>)"
  by (simp add: registry_def MessageQueue_init_def DelayQueue_init_def empty_world_def
      Let_def DEFAULT_QUEUE_def GROUP_QUEUE_def default_dq_def group_dq_def)

lemma handled_registry_eq:
  "handled_registry = (\<lparr>running = True, mq_dispatcher = None,
       delay_queues = [(''default_delay_queue'', 0), (''group_delay_queue'', 1)]\<rparr>,
     \<lparr>heap = ((\<lambda>a. None)(0 := Some (default_dq (Handler ''log_error''))))
               (1 := Some (group_dq (Handler ''log_error''))),
      instance_count = 2, ran = [], post_processed = [], routed = []\<rparr>)"
  by (simp add: handled_registry_def MessageQueue_init_def DelayQueue_init_def empty_world_def
      Let_def DEFAULT_QUEUE_def GROUP_QUEUE_def default_dq_def group_dq_def)

lemma extra_queue_eq:
  "extra_queue =
     \<lparr>heap = (((\<lambda>a. None)(0 := Some (default_dq (Handler ''log_error''))))
               (1 := Some (group_dq (Handler ''log_error''))))(2 := Some extra_dq),
      instance_count = 3, ran = [], post_processed = [], routed = []\<rparr>"
  by (simp add: extra_queue_def handled_registry_eq DelayQueue_init_def
      Let_def extra_dq_def)

lemma group_pending_heap:
  "heap group_pending 1 =
     Some ((group_dq Default_exception_handler)\<lparr>queue := [Some (Promise send_ok ''chat'' ''text'')]\<rparr>)"
  "heap group_pending 0 = Some (default_dq Default_exception_handler)"
  "ran group_pending = []"
  by (simp_all add: group_pending_def registry_eq MessageQueue_put_def GROUP_QUEUE_def
      DelayQueue_put_def is_alive_def group_dq_def default_dq_def Let_def)

section \<open>A burst limit of one\<close>

text \<open>
  C2 at \<open>burst_limit = 1\<close>: in the first iteration \<open>times\<close> is \<open>[now]\<close>, its length
  reaches the limit, and reading \<open>times[1]\<close> raises \<open>IndexError\<close>. The exception ends
  the worker thread; the task is not run.
\<close>

theorem burst_limit_one_fails:
  "delay_routine 1 (time_limit_of 1000) [] 0 = Inl IndexError \<and>
   map_option (\<lambda>w. map_option thread (heap w 0)) (run_iteration serial_pending 0 0)
     = Some (Some (Terminated (Some IndexError))) \<and>
   map_option ran (run_iteration serial_pending 0 0) = Some []"
  by (simp add: run_iteration_def serial_pending_heap delay_routine_def window_update_def
      throttle_def Let_def)

section \<open>Properties of \<open>DelayQueue.put\<close>\<close>

text \<open>
  C3, as stated, at \<open>put(func=f, promise=p)\<close> on a running queue: no exception is
  raised and \<open>p\<close> is returned.
\<close>

theorem put_validation_counterexample:
  "map_sum id fst (DelayQueue_put one_queue 0 (Some send_ok) None None
       (Some (Promise send_fails ''chat'' ''text''))) = Inr (Promise send_fails ''chat'' ''text'')"
  by (simp add: DelayQueue_put_def one_queue_heap is_alive_def Let_def)

text \<open>
  C3 (amended): \<open>put\<close> raises \<open>ValueError\<close> exactly when a promise was supplied
  together with all three of \<open>func\<close>, \<open>args\<close>, \<open>kwargs\<close>, or when neither a promise
  nor all three of them were supplied. A promise supplied together with only some of the
  three is accepted: on a queue that is alive and not shut down that promise is put on the
  queue and returned as it is, and nothing else changes.
\<close>

theorem put_validation:
  assumes "heap w self = Some dq"
  shows "(DelayQueue_put w self func args kwargs promise_arg = Inl ValueError) =
           ((promise_arg \<noteq> None) = (func \<noteq> None \<and> args \<noteq> None \<and> kwargs \<noteq> None))
       \<and> (promise_arg = Some p \<and> \<not> (func \<noteq> None \<and> args \<noteq> None \<and> kwargs \<noteq> None)
              \<and> is_alive dq \<and> \<not> exit_req dq
            \<longrightarrow> DelayQueue_put w self func args kwargs promise_arg =
                  Inr (p, w\<lparr>heap := (heap w)(self := Some (dq\<lparr>queue := queue dq @ [Some p]\<rparr>))\<rparr>))"
  using assms by (auto simp: DelayQueue_put_def Let_def)

theorem put_validation_witness:
  "heap one_queue 0 \<noteq> None \<and>
   DelayQueue_put one_queue 0 (Some send_ok) (Some ''chat'') (Some ''text'')
      (Some (Promise send_fails ''chat'' ''text'')) = Inl ValueError \<and>
   map_sum id fst (DelayQueue_put one_queue 0 (Some send_ok) None (Some ''text'')
      (Some (Promise send_fails ''chat'' ''caption''))) =
     Inr (Promise send_fails ''chat'' ''caption'') \<and>
   map_sum id (\<lambda>r. map_option queue (heap (snd r) 0))
      (DelayQueue_put one_queue 0 (Some send_ok) None (Some ''text'')
         (Some (Promise send_fails ''chat'' ''caption''))) =
     Inr (Some [Some (Promise send_fails ''chat'' ''caption'')])"
proof -
  have a: "DelayQueue_put one_queue 0 (Some send_ok) (Some ''chat'') (Some ''text'')
      (Some (Promise send_fails ''chat'' ''text'')) = Inl ValueError"
    using put_validation[OF one_queue_heap, of "Some send_ok" "Some ''chat''" "Some ''text''"
      "Some (Promise send_fails ''chat'' ''text'')"]
    by simp
  have b: "DelayQueue_put one_queue 0 (Some send_ok) None (Some ''text'')
      (Some (Promise send_fails ''chat'' ''caption'')) =
     Inr (Promise send_fails ''chat'' ''caption'',
       one_queue\<lparr>heap := (heap one_queue)(0 := Some (\<lparr>queue = [], burst_limit = 30,
         time_limit = time_limit_of 1000, parent = None, dispatcher = None,
         exc_route = Default_exception_handler, exit_req = False, name = ''all'',
         thread = Running, run_times = []\<rparr>\<lparr>queue := [] @
           [Some (Promise send_fails ''chat'' ''caption'')]\<rparr>))\<rparr>)"
    using put_validation[OF one_queue_heap, of "Some send_ok" None "Some ''text''"
      "Some (Promise send_fails ''chat'' ''caption'')" "Promise send_fails ''chat'' ''caption''"]
    by (simp add: is_alive_def)
  show ?thesis using a by (simp add: b one_queue_heap)
qed

text \<open>
  C10, as stated, at \<open>put(func=f, promise=p)\<close> on a stopped queue: the combination is
  inconsistent, line 204 lets it pass, and line 207 raises \<open>DelayQueueError\<close>.
\<close>

theorem put_validates_first_counterexample:
  "DelayQueue_put stopped_queue 0 (Some send_ok) None None
     (Some (Promise send_fails ''chat'' ''text'')) = Inl DelayQueueError"
  by (simp add: DelayQueue_put_def stopped_queue_heap)

text \<open>
  C10 (amended): on a queue that is not alive or whose shutdown flag is set, \<open>put\<close>
  raises \<open>ValueError\<close>, not \<open>DelayQueueError\<close>, for every call that supplies a promise
  together with all three of \<open>func\<close>, \<open>args\<close>, \<open>kwargs\<close> or that supplies neither a
  promise nor all three of them; every other call raises \<open>DelayQueueError\<close>.
\<close>

theorem put_validates_first:
  assumes "heap w self = Some dq" and "\<not> is_alive dq \<or> exit_req dq"
  shows "DelayQueue_put w self func args kwargs promise_arg =
           (if (promise_arg \<noteq> None) = (func \<noteq> None \<and> args \<noteq> None \<and> kwargs \<noteq> None)
            then Inl ValueError else Inl DelayQueueError)"
  using assms by (auto simp: DelayQueue_put_def)

theorem put_validates_first_witness:
  "heap stopped_queue 0 \<noteq> None \<and>
   DelayQueue_put stopped_queue 0 (Some send_ok) None None None = Inl ValueError \<and>
   DelayQueue_put stopped_queue 0 (Some send_ok) (Some ''chat'') (Some ''text'')
     (Some (Promise send_fails ''chat'' ''text'')) = Inl ValueError"
proof -
  have s: "\<not> is_alive \<lparr>queue = [None], burst_limit = 30, time_limit = time_limit_of 1000,
      parent = None, dispatcher = None, exc_route = Default_exception_handler,
      exit_req = True, name = ''all'', thread = Running, run_times = []\<rparr>
    \<or> exit_req \<lparr>queue = [None], burst_limit = 30, time_limit = time_limit_of 1000,
      parent = None, dispatcher = None, exc_route = Default_exception_handler,
      exit_req = True, name = ''all'', thread = Running, run_times = []\<rparr>" by simp
  from put_validates_first[OF stopped_queue_heap s, where func = "Some send_ok"
      and args = None and kwargs = None and promise_arg = None]
    put_validates_first[OF stopped_queue_heap s, where func = "Some send_ok"
      and args = "Some ''chat''" and kwargs = "Some ''text''"
      and promise_arg = "Some (Promise send_fails ''chat'' ''text'')"]
  show ?thesis by (simp add: stopped_queue_heap)
qed

subsection \<open>The shutdown flag is never reset\<close>

lemma put_flagged:
  assumes "flagged w a" and "DelayQueue_put w b func args kwargs p = Inr (p', w')"
  shows "flagged w' a"
  using assms
  by (auto simp: flagged_def DelayQueue_put_def Let_def split: option.splits if_splits)

lemma stop_flagged: "flagged w a \<Longrightarrow> flagged (snd (DelayQueue_stop w b)) a"
  by (auto simp: flagged_def DelayQueue_stop_def Let_def split: option.splits)

lemma stop_sets_flag: "heap w a = Some dq \<Longrightarrow> flagged (snd (DelayQueue_stop w a)) a"
  by (simp add: flagged_def DelayQueue_stop_def Let_def)

lemma start_flagged: "flagged w a \<Longrightarrow> flagged (snd (DelayQueue_start w b)) a"
  by (auto simp: flagged_def DelayQueue_start_def split: option.splits)

lemma set_dispatcher_flagged: "flagged w a \<Longrightarrow> flagged (DelayQueue_set_dispatcher w b d) a"
  by (auto simp: flagged_def DelayQueue_set_dispatcher_def split: option.splits)

lemma thread_dies_flagged: "flagged w a \<Longrightarrow> flagged (thread_dies w b e) a"
  by (auto simp: flagged_def thread_dies_def split: option.splits)

lemma dispatch_flagged: "flagged w a \<Longrightarrow> flagged (snd (dispatch w dq item)) a"
proof (cases "parent dq")
  case None
  assume "flagged w a"
  then show ?thesis using None
    by (auto simp: dispatch_def flagged_def call_exc_route_def Let_def
        split: option.splits handler.splits)
next
  case (Some par)
  assume f: "flagged w a"
  show ?thesis
  proof (cases "DelayQueue_put w par None None None item")
    case (Inl e)
    with Some f show ?thesis by (simp add: dispatch_def)
  next
    case (Inr r)
    obtain p w' where r: "r = (p, w')" by (cases r)
    with Inr f have "flagged w' a" by (auto intro: put_flagged)
    with Some Inr r show ?thesis by (simp add: dispatch_def)
  qed
qed

lemma run_iteration_flagged:
  assumes "flagged w a" and "run_iteration w b now = Some w'"
  shows "flagged w' a"
proof -
  obtain dq where dq: "heap w b = Some dq" "thread dq = Running"
    using assms(2) by (auto simp: run_iteration_def split: option.splits if_splits)
  obtain item rest where q: "queue dq = item # rest"
    using assms(2) dq by (cases "queue dq") (auto simp: run_iteration_def)
  show ?thesis
  proof (cases "exit_req dq")
    case True
    with assms dq q show ?thesis
      by (auto simp: run_iteration_def flagged_def split: option.splits if_splits)
  next
    case False
    show ?thesis
    proof (cases "delay_routine (burst_limit dq) (time_limit dq) (run_times dq) now")
      case (Inl e)
      with assms dq q False show ?thesis
        by (auto simp: run_iteration_def flagged_def split: option.splits if_splits)
    next
      case (Inr r)
      obtain tms' secs where r: "r = (tms', secs)" by (cases r)
      let ?dq1 = "dq\<lparr>queue := rest, run_times := tms'\<rparr>"
      let ?w1 = "w\<lparr>heap := (heap w)(b := Some ?dq1)\<rparr>"
      have f1: "flagged ?w1 a"
        using assms(1) dq False by (auto simp: flagged_def split: option.splits)
      have f2: "flagged (snd (dispatch ?w1 ?dq1 item)) a"
        using f1 by (rule dispatch_flagged)
      obtain r2 w2 where d: "dispatch ?w1 ?dq1 item = (r2, w2)" by (cases "dispatch ?w1 ?dq1 item")
      with f2 have f3: "flagged w2 a" by simp
      have "w' = (case r2 of None \<Rightarrow> w2 | Some e \<Rightarrow> thread_dies w2 b e)"
        using assms(2) dq q False Inr r d
        by (simp add: run_iteration_def Let_def split: option.splits)
      with f3 show ?thesis by (cases r2) (simp_all add: thread_dies_flagged)
    qed
  qed
qed

lemma happen_flagged: "flagged w a \<Longrightarrow> flagged (happen w ev) a"
proof (cases ev)
  case (Put b func args kwargs p)
  assume "flagged w a"
  then show ?thesis using Put
    by (cases "DelayQueue_put w b func args kwargs p") (auto intro: put_flagged)
next
  case (Iteration b now)
  assume "flagged w a"
  then show ?thesis using Iteration
    by (cases "run_iteration w b now") (auto intro: run_iteration_flagged)
qed (simp_all add: stop_flagged start_flagged set_dispatcher_flagged)

lemma history_flagged: "flagged w a \<Longrightarrow> flagged (foldl happen w evs) a"
  by (induction evs arbitrary: w) (simp_all add: happen_flagged)

lemma put_flagged_raises:
  assumes "flagged w a"
    and "(promise_arg \<noteq> None) \<noteq> (func \<noteq> None \<and> args \<noteq> None \<and> kwargs \<noteq> None)"
  shows "DelayQueue_put w a func args kwargs promise_arg = Inl DelayQueueError"
  using assms by (auto simp: flagged_def DelayQueue_put_def split: option.splits)

text \<open>
  C7: after \<open>stop()\<close> was called on a queue, and whatever happened since, a well-formed
  \<open>put\<close> raises \<open>DelayQueueError\<close>; so does a well-formed \<open>put\<close> on a queue whose
  flag is set or whose thread is not alive. The call returns at once, and an exception leaves
  the state as it was: nothing is enqueued.
\<close>

theorem put_after_stop:
  assumes "heap w self = Some dq"
    and "(promise_arg \<noteq> None) \<noteq> (func \<noteq> None \<and> args \<noteq> None \<and> kwargs \<noteq> None)"
  shows "DelayQueue_put (foldl happen (snd (DelayQueue_stop w self)) evs) self
           func args kwargs promise_arg = Inl DelayQueueError
         \<and> (exit_req dq \<or> \<not> is_alive dq \<longrightarrow>
              DelayQueue_put w self func args kwargs promise_arg = Inl DelayQueueError)"
proof
  have "flagged (snd (DelayQueue_stop w self)) self"
    using assms(1) by (rule stop_sets_flag)
  then have "flagged (foldl happen (snd (DelayQueue_stop w self)) evs) self"
    by (rule history_flagged)
  then show "DelayQueue_put (foldl happen (snd (DelayQueue_stop w self)) evs) self
           func args kwargs promise_arg = Inl DelayQueueError"
    using assms(2) by (rule put_flagged_raises)
next
  show "exit_req dq \<or> \<not> is_alive dq \<longrightarrow>
          DelayQueue_put w self func args kwargs promise_arg = Inl DelayQueueError"
    using assms by (auto simp: DelayQueue_put_def)
qed

theorem put_after_stop_witness:
  "heap one_queue 0 \<noteq> None \<and>
   DelayQueue_put (foldl happen (snd (DelayQueue_stop one_queue 0)) [Iteration 0 5, Start 0]) 0
     (Some send_ok) (Some ''chat'') (Some ''text'') None = Inl DelayQueueError"
  using put_after_stop[OF one_queue_heap, of None "Some send_ok" "Some ''chat''" "Some ''text''"
      "[Iteration 0 5, Start 0]"] one_queue_heap
  by simp

section \<open>Shutdown\<close>

text \<open>
  C8: after \<open>stop()\<close> was called on a queue whose worker is running, the worker's next
  iteration takes the oldest entry off the queue and returns from \<open>run\<close>: nothing is
  executed, handed to a dispatcher or an error handler, or forwarded (no other object
  changes), and the worker runs no further iteration.
\<close>

theorem shutdown_discards:
  assumes "heap w self = Some dq" and "thread dq = Running"
  shows "\<exists>w2. run_iteration (snd (DelayQueue_stop w self)) self now = Some w2
           \<and> ran w2 = ran w \<and> post_processed w2 = post_processed w \<and> routed w2 = routed w
           \<and> heap w2 = (heap w)(self := Some (dq\<lparr>exit_req := True, queue := tl (queue dq @ [None]),
                 thread := Terminated None\<rparr>))
           \<and> run_iteration w2 self now' = None"
proof -
  obtain item rest where q: "queue dq @ [None] = item # rest"
    by (cases "queue dq @ [None]") auto
  show ?thesis
    using assms q
    by (simp add: run_iteration_def DelayQueue_stop_def Let_def)
qed

text \<open>An instance: \<open>stop\<close> on a running queue that holds one task.\<close>

theorem shutdown_discards_witness:
  "heap pending_queue 0 \<noteq> None \<and>
   (\<exists>w2. run_iteration (snd (DelayQueue_stop pending_queue 0)) 0 7 = Some w2
      \<and> ran w2 = ran pending_queue
      \<and> map_option queue (heap w2 0) = Some [None]
      \<and> map_option thread (heap w2 0) = Some (Terminated None)
      \<and> run_iteration w2 0 8 = None)"
proof -
  have "thread \<lparr>queue = [Some (Promise send_fails ''chat'' ''text'')],
     burst_limit = 30, time_limit = time_limit_of 1000, parent = None, dispatcher = None,
     exc_route = Default_exception_handler, exit_req = False, name = ''all'',
     thread = Running, run_times = []\<rparr> = Running" by simp
  from shutdown_discards[OF pending_queue_heap this, of 7 8]
  show ?thesis by (auto simp: pending_queue_heap)
qed

section \<open>Dispatch of an admitted task\<close>

text \<open>
  C6: an iteration that admits a task (the worker is running, the flag is not set, the
  delay routine returned). With a parent, the promise goes to the parent's \<open>put\<close> and
  this worker neither runs it nor reports anything (an exception of that \<open>put\<close> ends
  this worker's thread). Without a parent the promise is run; then, if a dispatcher is set,
  the promise is handed to it and the error handler is not called; otherwise, if the promise
  holds an exception, the error handler is called with it, and the default handler re-raises
  it, which ends the worker's thread.
\<close>

theorem admitted_task:
  assumes "heap w self = Some dq" and "thread dq = Running" and "\<not> exit_req dq"
    and "queue dq = Some p # rest"
    and "delay_routine (burst_limit dq) (time_limit dq) (run_times dq) now = Inr (tms', secs)"
  shows "\<exists>w'. run_iteration w self now = Some w' \<and>
    (let w1 = w\<lparr>heap := (heap w)(self := Some (dq\<lparr>queue := rest, run_times := tms'\<rparr>))\<rparr>
     in case parent dq of
          Some par \<Rightarrow>
            ran w' = ran w \<and> post_processed w' = post_processed w \<and> routed w' = routed w \<and>
            w' = (case DelayQueue_put w1 par None None None (Some p) of
                    Inr (p', w2) \<Rightarrow> w2
                  | Inl e \<Rightarrow> thread_dies w1 self e)
        | None \<Rightarrow>
            ran w' = ran w @ [promise_run p] \<and>
            (case dispatcher dq of
               Some d \<Rightarrow>
                 post_processed w' = post_processed w @ [(d, promise_run p)] \<and>
                 routed w' = routed w \<and> heap w' = heap w1
             | None \<Rightarrow>
                 post_processed w' = post_processed w \<and>
                 (case p_exception (promise_run p) of
                    None \<Rightarrow> routed w' = routed w \<and> heap w' = heap w1
                  | Some e \<Rightarrow>
                      (case exc_route dq of
                         Handler f \<Rightarrow> routed w' = routed w @ [(f, e)] \<and> heap w' = heap w1
                       | Default_exception_handler \<Rightarrow>
                           routed w' = routed w \<and>
                           heap w' = (heap w1)(self := Some (dq\<lparr>queue := rest,
                              run_times := tms', thread := Terminated (Some e)\<rparr>))))))"
proof (cases "parent dq")
  case (Some par)
  let ?w1 = "w\<lparr>heap := (heap w)(self := Some (dq\<lparr>queue := rest, run_times := tms'\<rparr>))\<rparr>"
  show ?thesis
  proof (cases "DelayQueue_put ?w1 par None None None (Some p)")
    case (Inl e)
    with assms Some show ?thesis
      by (simp add: run_iteration_def dispatch_def Let_def thread_dies_def)
  next
    case (Inr r)
    obtain p' w2 where r: "r = (p', w2)" by (cases r)
    have "ran w2 = ran w \<and> post_processed w2 = post_processed w \<and> routed w2 = routed w"
      using Inr r by (auto simp: DelayQueue_put_def Let_def split: option.splits if_splits)
    with assms Some Inr r show ?thesis
      by (simp add: run_iteration_def dispatch_def Let_def)
  qed
next
  case None
  with assms show ?thesis
    by (auto simp: run_iteration_def dispatch_def Let_def call_exc_route_def thread_dies_def
        split: option.splits handler.splits)
qed

theorem admitted_task_witness:
  "heap pending_queue 0 \<noteq> None \<and>
   (\<exists>w'. run_iteration pending_queue 0 0 = Some w'
      \<and> ran w' = ran pending_queue @ [promise_run (Promise send_fails ''chat'' ''text'')]
      \<and> routed w' = routed pending_queue
      \<and> map_option thread (heap w' 0) = Some (Terminated (Some (TaskError ''timed out'')))) \<and>
   (\<exists>w'. run_iteration group_pending 1 0 = Some w'
      \<and> ran w' = []
      \<and> map_option queue (heap w' 0) = Some [Some (Promise send_ok ''chat'' ''text'')]
      \<and> map_option queue (heap w' 1) = Some [])"
proof -
  have d1: "delay_routine 30 (time_limit_of 1000) [] 0 = Inr ([0], 0)"
    by (simp add: delay_routine_def window_update_def throttle_def Let_def)
  have d2: "delay_routine 20 (time_limit_of 60000) [] 0 = Inr ([0], 0)"
    by (simp add: delay_routine_def window_update_def throttle_def Let_def)
  have a: "\<exists>w'. run_iteration pending_queue 0 0 = Some w'
      \<and> ran w' = ran pending_queue @ [promise_run (Promise send_fails ''chat'' ''text'')]
      \<and> routed w' = routed pending_queue
      \<and> map_option thread (heap w' 0) = Some (Terminated (Some (TaskError ''timed out'')))"
    using admitted_task[OF pending_queue_heap, of "Promise send_fails ''chat'' ''text''" "[]" 0
        "[0]" 0] d1
    by (auto simp: Let_def promise_run_def Promise_def send_fails_def)
  have b: "\<exists>w'. run_iteration group_pending 1 0 = Some w'
      \<and> ran w' = []
      \<and> map_option queue (heap w' 0) = Some [Some (Promise send_ok ''chat'' ''text'')]
      \<and> map_option queue (heap w' 1) = Some []"
    using admitted_task[OF group_pending_heap(1), of "Promise send_ok ''chat'' ''text''" "[]" 0
        "[0]" 0] d2 group_pending_heap
    by (auto simp: Let_def group_dq_def default_dq_def DelayQueue_put_def is_alive_def)
  from a b show ?thesis by (simp add: pending_queue_heap)
qed

section \<open>Properties of MessageQueue\<close>

lemma stop_each_flagged_mono: "flagged w a \<Longrightarrow> flagged (snd (stop_each w as)) a"
proof (induction as arbitrary: w)
  case Nil
  then show ?case by simp
next
  case (Cons b as)
  obtain r w1 where s: "DelayQueue_stop w b = (r, w1)" by (cases "DelayQueue_stop w b")
  have "flagged (snd (DelayQueue_stop w b)) a" using Cons.prems by (rule stop_flagged)
  with s have f: "flagged w1 a" by simp
  show ?case
  proof (cases r)
    case None
    with s f Cons.IH show ?thesis by simp
  next
    case (Some e)
    with s f show ?thesis by simp
  qed
qed

lemma stop_each_flags:
  "fst (stop_each w as) = None \<Longrightarrow> a \<in> set as \<Longrightarrow> flagged (snd (stop_each w as)) a"
proof (induction as arbitrary: w)
  case Nil
  then show ?case by simp
next
  case (Cons b as)
  obtain r w1 where s: "DelayQueue_stop w b = (r, w1)" by (cases "DelayQueue_stop w b")
  with Cons.prems(1) have r: "r = None" by (cases r) auto
  with s Cons.prems(1) have rest: "fst (stop_each w1 as) = None" by simp
  show ?case
  proof (cases "a = b")
    case True
    have "heap w b \<noteq> None" using s r by (auto simp: DelayQueue_stop_def split: option.splits)
    then obtain dq where "heap w b = Some dq" by auto
    then have "flagged (snd (DelayQueue_stop w b)) b" by (rule stop_sets_flag)
    with s have "flagged w1 b" by simp
    then have "flagged (snd (stop_each w1 as)) b" by (rule stop_each_flagged_mono)
    with True s r show ?thesis by simp
  next
    case False
    with Cons.prems(2) have "a \<in> set as" by simp
    with rest have "flagged (snd (stop_each w1 as)) a" by (rule Cons.IH)
    with s r show ?thesis by simp
  qed
qed

text \<open>
  C9: \<open>MessageQueue.stop\<close> leaves \<open>running\<close> as it was; when it returns without an
  exception, the shutdown flag of every registered DelayQueue is set.
\<close>

theorem registry_stop_frame:
  assumes "MessageQueue_stop mq w = (r, mq', w')"
  shows "running mq' = running mq
         \<and> (r = None \<longrightarrow> (\<forall>a \<in> snd ` set (delay_queues mq). flagged w' a))"
proof -
  have eq: "stop_each w (map snd (delay_queues mq)) = (r, w')" "mq' = mq"
    using assms by (auto simp: MessageQueue_stop_def split: prod.splits)
  have "r = None \<longrightarrow> (\<forall>a \<in> snd ` set (delay_queues mq). flagged w' a)"
  proof (intro impI ballI)
    fix a assume "r = None" and "a \<in> snd ` set (delay_queues mq)"
    then have "fst (stop_each w (map snd (delay_queues mq))) = None"
      and "a \<in> set (map snd (delay_queues mq))" using eq by auto
    then have "flagged (snd (stop_each w (map snd (delay_queues mq)))) a" by (rule stop_each_flags)
    with eq show "flagged w' a" by simp
  qed
  with eq show ?thesis by simp
qed

theorem registry_stop_frame_witness:
  "running (fst (snd (MessageQueue_stop (fst registry) (snd registry)))) = True
   \<and> fst (MessageQueue_stop (fst registry) (snd registry)) = None
   \<and> flagged (snd (snd (MessageQueue_stop (fst registry) (snd registry)))) 1"
proof -
  obtain r mq' w' where s: "MessageQueue_stop (fst registry) (snd registry) = (r, mq', w')"
    by (cases "MessageQueue_stop (fst registry) (snd registry)")
  have r: "r = None"
    using s by (simp add: MessageQueue_stop_def registry_eq DelayQueue_stop_def Let_def
        default_dq_def group_dq_def split: prod.splits)
  have m: "1 \<in> snd ` set (delay_queues (fst registry))" by (simp add: registry_eq)
  have run: "running (fst registry)" by (simp add: registry_eq)
  from registry_stop_frame[OF s] r m run s show ?thesis by auto
qed

lemma map_of_dict_set: "map_of (dict_set d k v) k = Some v"
  by (induction d) auto

text \<open>
  C4, as stated, at a MessageQueue constructed with \<open>error_handler=log_error\<close>: a
  DelayQueue added to it keeps its own error handler (here the default one), while the
  queues the constructor made have \<open>log_error\<close>.
\<close>

theorem add_delay_queue_counterexample:
  "map_option exc_route (heap (snd (snd (add_delay_queue (fst handled_registry) extra_queue 2))) 2)
     = Some Default_exception_handler
   \<and> map_option exc_route (heap extra_queue 0) = Some (Handler ''log_error'')"
  by (simp add: extra_queue_eq handled_registry_eq add_delay_queue_def DelayQueue_start_def
      is_alive_def extra_dq_def default_dq_def Let_def)

text \<open>
  C4 (amended): \<open>add_delay_queue\<close> registers the queue under its name, sets the queue's
  dispatcher to the MessageQueue's when that is set, leaves the queue's error handler as it
  is, and calls \<open>start\<close> on the queue when the MessageQueue is running and the queue is
  not alive: a queue never started becomes alive, and for a queue whose thread has
  terminated \<open>start\<close> raises \<open>RuntimeError\<close>.
\<close>

theorem add_delay_queue_effect:
  assumes "heap w a = Some dq"
  shows "case add_delay_queue mq w a of (r, mq', w') \<Rightarrow>
     map_of (delay_queues mq') (name dq) = Some a \<and> running mq' = running mq \<and>
     map_option dispatcher (heap w' a) =
       Some (case mq_dispatcher mq of Some d \<Rightarrow> Some d | None \<Rightarrow> dispatcher dq) \<and>
     map_option exc_route (heap w' a) = Some (exc_route dq) \<and>
     map_option thread (heap w' a) =
       Some (if running mq \<and> thread dq = Not_started then Running else thread dq) \<and>
     r = (case thread dq of
            Terminated e \<Rightarrow> if running mq then Some RuntimeError else None
          | _ \<Rightarrow> None)"
  using assms
  by (cases "thread dq"; cases "mq_dispatcher mq")
     (auto simp: add_delay_queue_def DelayQueue_start_def DelayQueue_set_dispatcher_def
      is_alive_def Let_def map_of_dict_set)

theorem add_delay_queue_effect_witness:
  "heap extra_queue 2 = Some extra_dq \<and>
   map_option thread (heap (snd (snd (add_delay_queue (fst handled_registry) extra_queue 2))) 2)
     = Some Running \<and>
   map_option exc_route (heap (snd (snd (add_delay_queue (fst handled_registry) extra_queue 2))) 2)
     = Some Default_exception_handler \<and>
   fst (add_delay_queue (fst handled_registry) extra_queue 2) = None"
proof -
  have h: "heap extra_queue 2 = Some extra_dq" by (simp add: extra_queue_eq)
  have "running (fst handled_registry)" "thread extra_dq = Not_started"
    "exc_route extra_dq = Default_exception_handler"
    by (simp_all add: handled_registry_eq extra_dq_def)
  with add_delay_queue_effect[OF h, of "fst handled_registry"] h show ?thesis
    by (auto split: prod.splits)
qed

section \<open>The sliding window in the worker loop\<close>

lemma window_update_cases:
  "window_update w now tms =
     (if tms \<noteq> [] \<and> last tms < fl (now - w) then [now]
      else filter (\<lambda>t. fl (now - w) \<le> t) tms @ [now])"
proof (cases "tms = []")
  case True
  then show ?thesis by (simp add: window_update_def Let_def)
next
  case False
  then have "last tms = tms ! (length tms - 1)" by (rule last_conv_nth)
  then show ?thesis by (simp add: window_update_def Let_def recent_filter)
qed

lemma put_run_times:
  assumes "DelayQueue_put w b func args kwargs p = Inr (p', w')"
  shows "map_option run_times (heap w' a) = map_option run_times (heap w a)"
  using assms
  by (auto simp: DelayQueue_put_def Let_def split: option.splits if_splits)

lemma dispatch_run_times:
  "map_option run_times (heap (snd (dispatch w dq item)) a) = map_option run_times (heap w a)"
proof (cases "parent dq")
  case None
  then show ?thesis
    by (auto simp: dispatch_def call_exc_route_def Let_def split: option.splits handler.splits)
next
  case (Some par)
  show ?thesis
  proof (cases "DelayQueue_put w par None None None item")
    case (Inl e)
    with Some show ?thesis by (simp add: dispatch_def)
  next
    case (Inr r)
    obtain p w' where r: "r = (p, w')" by (cases r)
    with Inr have "map_option run_times (heap w' a) = map_option run_times (heap w a)"
      by (auto intro: put_run_times)
    with Some Inr r show ?thesis by (simp add: dispatch_def)
  qed
qed

lemma thread_dies_run_times:
  "map_option run_times (heap (thread_dies w b e) a) = map_option run_times (heap w a)"
  by (auto simp: thread_dies_def split: option.splits)

text \<open>
  C5: every iteration of the worker loop that gets past the shutdown check, with
  \<open>now\<close> the clock reading and \<open>cutoff\<close> the float difference \<open>now - time_limit\<close> of
  line 143, leaves in \<open>times\<close>: \<open>[now]\<close> if the list was non-empty and its last entry
  strictly older than the cutoff; otherwise its entries \<open>\<ge> cutoff\<close>, in their order,
  followed by \<open>now\<close>. This holds whatever the rest of the iteration does.
\<close>

theorem iteration_updates_times:
  assumes "heap w self = Some dq" and "thread dq = Running" and "\<not> exit_req dq"
    and "queue dq = item # rest"
  shows "\<exists>w'. run_iteration w self now = Some w' \<and>
           map_option run_times (heap w' self) =
             Some (if run_times dq \<noteq> [] \<and> last (run_times dq) < fl (now - time_limit dq)
                   then [now]
                   else filter (\<lambda>t. fl (now - time_limit dq) \<le> t) (run_times dq) @ [now])"
proof (cases "delay_routine (burst_limit dq) (time_limit dq) (run_times dq) now")
  case (Inl e)
  with assms show ?thesis
    by (simp add: run_iteration_def window_update_cases)
next
  case (Inr r)
  obtain tms' secs where r: "r = (tms', secs)" by (cases r)
  with Inr have t: "tms' = window_update (time_limit dq) now (run_times dq)"
    by (auto simp: delay_routine_def Let_def split: sum.splits)
  let ?dq1 = "dq\<lparr>queue := rest, run_times := tms'\<rparr>"
  let ?w1 = "w\<lparr>heap := (heap w)(self := Some ?dq1)\<rparr>"
  obtain r2 w2 where d: "dispatch ?w1 ?dq1 item = (r2, w2)" by (cases "dispatch ?w1 ?dq1 item")
  have "map_option run_times (heap (snd (dispatch ?w1 ?dq1 item)) self)
          = map_option run_times (heap ?w1 self)"
    by (rule dispatch_run_times)
  with d have k: "map_option run_times (heap w2 self) = Some tms'" by simp
  have "run_iteration w self now = Some (case r2 of None \<Rightarrow> w2 | Some e \<Rightarrow> thread_dies w2 self e)"
    using assms Inr r d by (simp add: run_iteration_def Let_def split: option.splits)
  moreover have "map_option run_times
      (heap (case r2 of None \<Rightarrow> w2 | Some e \<Rightarrow> thread_dies w2 self e) self) = Some tms'"
    using k by (cases r2) (simp_all add: thread_dies_run_times)
  ultimately show ?thesis using t by (simp add: window_update_cases)
qed

lemma warm_queue_heap:
  "heap warm_queue 0 = Some \<lparr>queue = [Some (Promise send_fails ''chat'' ''text'')],
     burst_limit = 30, time_limit = time_limit_of 1000, parent = None, dispatcher = None,
     exc_route = Default_exception_handler, exit_req = False, name = ''all'',
     thread = Running, run_times = [0, 1/2, 1]\<rparr>"
  by (simp add: warm_queue_def pending_queue_heap)

theorem iteration_updates_times_witness:
  "heap warm_queue 0 \<noteq> None \<and>
   (\<exists>w'. run_iteration warm_queue 0 (3/2) = Some w' \<and>
          map_option run_times (heap w' 0) = Some [1/2, 1, 3/2]) \<and>
   (\<exists>w'. run_iteration warm_queue 0 3 = Some w' \<and>
          map_option run_times (heap w' 0) = Some [3])"
proof -
  have c1: "fl (3/2 - time_limit_of 1000) = 1/2" by (simp add: time_limit_of_1000 fl_small)
  have "fl (of_int 1 * 2 powi 1) = of_int 1 * 2 powi 1" by (rule fl_dyadic) simp_all
  then have c2: "fl (3 - time_limit_of 1000) = 2" by (simp add: time_limit_of_1000)
  from iteration_updates_times[OF warm_queue_heap, of "Some (Promise send_fails ''chat'' ''text'')"
      "[]" "3/2"]
    iteration_updates_times[OF warm_queue_heap, of "Some (Promise send_fails ''chat'' ''text'')"
      "[]" 3]
  show ?thesis by (simp add: warm_queue_heap c1 c2)
qed

end
